theory Spec2Isabelle
  imports Main
begin

section \<open>Constants of the headers\<close>

text \<open>
  \<^verbatim>\<open>interceptor.c\<close> includes \<^verbatim>\<open>interceptor.h\<close> and the kernel headers. The constants
  they define that the code uses are the fields of a configuration record; every function
  that reads one of them takes the record as its first argument. \<^verbatim>\<open>__NR_exit_group\<close> is
  written \<open>NR_exit_group\<close>.
\<close>

record config =
  NR_syscalls :: int
  MY_CUSTOM_SYSCALL :: int
  NR_exit_group :: int
  REQUEST_SYSCALL_INTERCEPT :: int
  REQUEST_SYSCALL_RELEASE :: int
  REQUEST_START_MONITORING :: int
  REQUEST_STOP_MONITORING :: int

text \<open>The error numbers of \<^verbatim>\<open>errno.h\<close>.\<close>

definition EPERM :: int where "EPERM = 1"
definition ENOMEM :: int where "ENOMEM = 12"
definition EBUSY :: int where "EBUSY = 16"
definition EINVAL :: int where "EINVAL = 22"

section \<open>Data structures and bookkeeping\<close>

text \<open>
  A handler is what a slot of \<^verbatim>\<open>sys_call_table\<close> or the field \<^verbatim>\<open>f\<close> holds: the null
  pointer, one of the three functions of the module, or a function of the kernel, named
  by a number.
\<close>

datatype handler =
    NULL_fn
  | interceptor_fn
  | my_syscall_fn
  | my_exit_group_fn
  | kernel_fn int

text \<open>
  \<^verbatim>\<open>struct list_head my_list\<close> with the \<^verbatim>\<open>pid_list\<close> nodes linked to it. A head that
  \<^verbatim>\<open>INIT_LIST_HEAD\<close> has set up is \<open>Circular xs\<close>, with \<open>xs\<close> the pids of the nodes from
  \<^verbatim>\<open>head->next\<close> on. A head of static storage that was never set up has \<^verbatim>\<open>next\<close> and
  \<^verbatim>\<open>prev\<close> null: \<open>Zeroed\<close>. Walking or linking into a \<open>Zeroed\<close> head dereferences a null
  pointer; the functions below return \<open>None\<close> there.
\<close>

datatype list_head = Zeroed | Circular "int list"

record mytable =
  f :: handler
  intercepted :: int
  monitored :: int
  listcount :: int
  my_list :: list_head

text \<open>
  The globals of the module. \<^verbatim>\<open>table\<close> has \<^verbatim>\<open>NR_syscalls+1\<close> entries; it is a function
  of the index here, and \<^verbatim>\<open>my_syscall\<close> lets no index outside \<open>1..NR_syscalls\<close> through.
  \<^verbatim>\<open>listcount\<close> is a C \<^verbatim>\<open>int\<close> that counts allocated list nodes, far below \<open>2^31\<close>; it is
  an \<open>int\<close>. The two spinlocks are taken and released in pairs inside each function and
  have no effect on a sequential run; section \<open>The interceptor under interleaving\<close>
  models them.
\<close>

record globals =
  sys_call_table :: "int \<Rightarrow> handler"
  table :: "int \<Rightarrow> mytable"
  orig_exit_group :: handler
  orig_custom_syscall :: handler

text \<open>
  What the code asks the kernel: \<^verbatim>\<open>current->pid\<close>, \<^verbatim>\<open>current_uid()\<close>, and
  \<^verbatim>\<open>pid_task(find_vpid(pid), PIDTYPE_PID)\<close>, which is null (\<open>None\<close>) for a pid with no
  task and otherwise gives the task, of which the code reads \<^verbatim>\<open>real_cred->uid\<close> only.
  \<open>kmalloc_ok\<close> says whether the one \<^verbatim>\<open>kmalloc\<close> of the call succeeds.
\<close>

record kernel =
  current_pid :: int
  current_uid :: int
  pid_task :: "int \<Rightarrow> int option"
  kmalloc_ok :: bool

text \<open>Updating one entry of \<^verbatim>\<open>table\<close>.\<close>

definition set_entry :: "int \<Rightarrow> mytable \<Rightarrow> globals \<Rightarrow> globals" where
  "set_entry sysc e st = st\<lparr>table := (table st)(sysc := e)\<rparr>"

section \<open>List operations\<close>

text \<open>
  \<^verbatim>\<open>add_pid_sysc\<close>: a failed \<^verbatim>\<open>kmalloc\<close> returns \<^verbatim>\<open>-ENOMEM\<close>; otherwise \<^verbatim>\<open>list_add\<close> links
  the node right after the head and \<^verbatim>\<open>listcount\<close> is incremented.
\<close>

definition add_pid_sysc :: "bool \<Rightarrow> int \<Rightarrow> int \<Rightarrow> globals \<Rightarrow> (int \<times> globals) option" where
  "add_pid_sysc alloc pid sysc st =
     (if \<not> alloc then Some (- ENOMEM, st)
      else case my_list (table st sysc) of
        Zeroed \<Rightarrow> None
      | Circular xs \<Rightarrow>
          Some (0, set_entry sysc
            ((table st sysc)\<lparr>my_list := Circular (pid # xs),
                             listcount := listcount (table st sysc) + 1\<rparr>) st))"

text \<open>
  The loop of \<^verbatim>\<open>del_pid_sysc\<close>: \<^verbatim>\<open>list_for_each\<close> up to the first node with the pid,
  which is unlinked. \<open>None\<close> when no node has the pid.
\<close>

fun unlink_first :: "int \<Rightarrow> int list \<Rightarrow> int list option" where
  "unlink_first pid [] = None"
| "unlink_first pid (x # xs) =
     (if x = pid then Some xs
      else case unlink_first pid xs of None \<Rightarrow> None | Some ys \<Rightarrow> Some (x # ys))"

text \<open>
  What both \<^verbatim>\<open>del_pid_sysc\<close> and \<^verbatim>\<open>del_pid\<close> do after unlinking a node: decrement
  \<^verbatim>\<open>listcount\<close>, and reset \<^verbatim>\<open>monitored\<close> from 1 to 0 when the count reached 0.
\<close>

definition count_down :: "mytable \<Rightarrow> mytable" where
  "count_down e =
     (let e1 = e\<lparr>listcount := listcount e - 1\<rparr>
      in if listcount e1 = 0 \<and> monitored e1 = 1 then e1\<lparr>monitored := 0\<rparr> else e1)"

definition del_pid_sysc :: "int \<Rightarrow> int \<Rightarrow> globals \<Rightarrow> (int \<times> globals) option" where
  "del_pid_sysc pid sysc st =
     (case my_list (table st sysc) of
        Zeroed \<Rightarrow> None
      | Circular xs \<Rightarrow>
          (case unlink_first pid xs of
             None \<Rightarrow> Some (- EINVAL, st)
           | Some ys \<Rightarrow>
               Some (0, set_entry sysc
                 (count_down ((table st sysc)\<lparr>my_list := Circular ys\<rparr>)) st)))"

text \<open>
  The inner loop of \<^verbatim>\<open>del_pid\<close>: \<^verbatim>\<open>list_for_each_safe\<close> over the whole list of one
  entry, unlinking every node with the pid. The entry carries \<^verbatim>\<open>listcount\<close> and
  \<^verbatim>\<open>monitored\<close>; the list is returned apart and stored by the caller. The flag is
  \<^verbatim>\<open>ispid\<close>.
\<close>

fun purge_list :: "int \<Rightarrow> int list \<Rightarrow> mytable \<times> int \<Rightarrow> int list \<times> mytable \<times> int" where
  "purge_list pid [] (e, ispid) = ([], e, ispid)"
| "purge_list pid (x # xs) (e, ispid) =
     (if x = pid then purge_list pid xs (count_down e, 1)
      else case purge_list pid xs (e, ispid) of (ys, e', i') \<Rightarrow> (x # ys, e', i'))"

text \<open>The outer loop of \<^verbatim>\<open>del_pid\<close> over the indices \<open>ss\<close>.\<close>

fun del_pid_loop :: "int \<Rightarrow> int list \<Rightarrow> globals \<times> int \<Rightarrow> (globals \<times> int) option" where
  "del_pid_loop pid [] (st, ispid) = Some (st, ispid)"
| "del_pid_loop pid (s # ss) (st, ispid) =
     (case my_list (table st s) of
        Zeroed \<Rightarrow> None
      | Circular xs \<Rightarrow>
          (case purge_list pid xs (table st s, ispid) of
             (ys, e', i') \<Rightarrow>
               del_pid_loop pid ss (set_entry s (e'\<lparr>my_list := Circular ys\<rparr>) st, i')))"

text \<open>\<^verbatim>\<open>del_pid\<close>: \<^verbatim>\<open>for(s = 1; s < NR_syscalls; s++)\<close>.\<close>

definition del_pid :: "config \<Rightarrow> int \<Rightarrow> globals \<Rightarrow> (int \<times> globals) option" where
  "del_pid cfg pid st =
     (case del_pid_loop pid [1 .. NR_syscalls cfg - 1] (st, 0) of
        None \<Rightarrow> None
      | Some (st', ispid) \<Rightarrow> Some (if ispid \<noteq> 0 then 0 else - 1, st'))"

definition destroy_list :: "int \<Rightarrow> globals \<Rightarrow> globals option" where
  "destroy_list sysc st =
     (case my_list (table st sysc) of
        Zeroed \<Rightarrow> None
      | Circular xs \<Rightarrow>
          Some (set_entry sysc
            ((table st sysc)\<lparr>my_list := Circular [], listcount := 0, monitored := 0\<rparr>) st))"

text \<open>
  \<^verbatim>\<open>check_pid_from_list\<close> reads \<^verbatim>\<open>real_cred->uid\<close> of both tasks without a null check.
\<close>

definition check_pid_from_list :: "kernel \<Rightarrow> int \<Rightarrow> int \<Rightarrow> int option" where
  "check_pid_from_list k pid1 pid2 =
     (case pid_task k pid1 of
        None \<Rightarrow> None
      | Some uid1 \<Rightarrow>
          (case pid_task k pid2 of
             None \<Rightarrow> None
           | Some uid2 \<Rightarrow> Some (if uid1 \<noteq> uid2 then - EPERM else 0)))"

text \<open>The loop of \<^verbatim>\<open>check_pid_monitored\<close>, with its early return.\<close>

fun scan_list :: "int \<Rightarrow> int list \<Rightarrow> int" where
  "scan_list pid [] = 0"
| "scan_list pid (x # xs) = (if x = pid then 1 else scan_list pid xs)"

definition check_pid_monitored :: "int \<Rightarrow> int \<Rightarrow> globals \<Rightarrow> int option" where
  "check_pid_monitored sysc pid st =
     (case my_list (table st sysc) of
        Zeroed \<Rightarrow> None
      | Circular xs \<Rightarrow> Some (scan_list pid xs))"

section \<open>Intercepting exit_group\<close>

text \<open>
  \<^verbatim>\<open>my_exit_group\<close> removes \<^verbatim>\<open>current->pid\<close> from the lists under both locks and then
  calls \<^verbatim>\<open>orig_exit_group(status)\<close>. The result is the state after \<^verbatim>\<open>del_pid\<close>, the
  handler that is called last and its argument.
\<close>

definition my_exit_group :: "config \<Rightarrow> kernel \<Rightarrow> int \<Rightarrow> globals \<Rightarrow> (globals \<times> handler \<times> int) option" where
  "my_exit_group cfg k status st =
     (case del_pid cfg (current_pid k) st of
        None \<Rightarrow> None
      | Some (r, st') \<Rightarrow> Some (st', orig_exit_group st', status))"

section \<open>The interceptor\<close>

record pt_regs =
  ax :: int
  bx :: int
  cx :: int
  dx :: int
  si :: int
  di :: int
  bp :: int

text \<open>One line written by the macro \<^verbatim>\<open>log_message\<close>, with its eight arguments.\<close>

datatype log_line = log_message int int int int int int int int

text \<open>
  \<^verbatim>\<open>interceptor\<close> reads \<^verbatim>\<open>hasPid\<close>, then \<^verbatim>\<open>monitored\<close>, logs or not, and returns
  \<^verbatim>\<open>table[reg.ax].f(reg)\<close>. \<open>call h reg\<close> is the value that a call of handler \<open>h\<close> on
  \<open>reg\<close> returns; a call through a null \<^verbatim>\<open>f\<close> is \<open>None\<close>. The result is the lines
  logged and the value returned.
\<close>

definition interceptor ::
  "kernel \<Rightarrow> (handler \<Rightarrow> pt_regs \<Rightarrow> int) \<Rightarrow> pt_regs \<Rightarrow> globals \<Rightarrow> (log_line list \<times> int) option" where
  "interceptor k call reg st =
     (case check_pid_monitored (ax reg) (current_pid k) st of
        None \<Rightarrow> None
      | Some hasPid \<Rightarrow>
          (let logged =
                 (if (monitored (table st (ax reg)) = 2 \<and> hasPid = 0)
                     \<or> (monitored (table st (ax reg)) = 1 \<and> hasPid = 1)
                  then [log_message (current_pid k) (ax reg) (bx reg) (cx reg) (dx reg)
                          (si reg) (di reg) (bp reg)]
                  else [])
           in if f (table st (ax reg)) = NULL_fn then None
              else Some (logged, call (f (table st (ax reg))) reg)))"

section \<open>The four commands\<close>

definition request_syscall_intercept :: "kernel \<Rightarrow> int \<Rightarrow> globals \<Rightarrow> int \<times> globals" where
  "request_syscall_intercept k syscall st =
     (if current_uid k \<noteq> 0 then (- EPERM, st)
      else if intercepted (table st syscall) = 1 then (- EBUSY, st)
      else
        (let st1 = st\<lparr>sys_call_table := (sys_call_table st)(syscall := interceptor_fn)\<rparr>
         in (0, set_entry syscall ((table st1 syscall)\<lparr>intercepted := 1\<rparr>) st1)))"

definition request_syscall_release :: "kernel \<Rightarrow> int \<Rightarrow> globals \<Rightarrow> int \<times> globals" where
  "request_syscall_release k syscall st =
     (if current_uid k \<noteq> 0 then (- EPERM, st)
      else if intercepted (table st syscall) = 0 then (- EINVAL, st)
      else
        (let st1 = st\<lparr>sys_call_table := (sys_call_table st)(syscall := f (table st syscall))\<rparr>
         in (0, set_entry syscall ((table st1 syscall)\<lparr>intercepted := 0\<rparr>) st1)))"

text \<open>
  The test that opens \<^verbatim>\<open>request_start_monitoring\<close> and \<^verbatim>\<open>request_stop_monitoring\<close>:
  \<^verbatim>\<open>current_uid() != 0 && (pid == 0 || check_pid_from_list(pid, current->pid) != 0)\<close>,
  evaluated left to right. \<open>Some True\<close> is the branch that returns \<^verbatim>\<open>-EPERM\<close>.
\<close>

definition not_permitted :: "kernel \<Rightarrow> int \<Rightarrow> bool option" where
  "not_permitted k pid =
     (if current_uid k \<noteq> 0 then
        (if pid = 0 then Some True
         else case check_pid_from_list k pid (current_pid k) of
                None \<Rightarrow> None
              | Some r \<Rightarrow> Some (r \<noteq> 0))
      else Some False)"

text \<open>
  The branch the two monitoring commands share, under \<^verbatim>\<open>pidlist_lock\<close>:
  \<^verbatim>\<open>hasPid = check_pid_monitored(..); status = hasPid ? -EBUSY : add_pid_sysc(..);
  if (status == 0) table[syscall].monitored = 1;\<close>
\<close>

definition add_and_mark :: "kernel \<Rightarrow> int \<Rightarrow> int \<Rightarrow> globals \<Rightarrow> (int \<times> globals) option" where
  "add_and_mark k syscall pid st =
     (case check_pid_monitored syscall pid st of
        None \<Rightarrow> None
      | Some hasPid \<Rightarrow>
          (case (if hasPid \<noteq> 0 then Some (- EBUSY, st)
                 else add_pid_sysc (kmalloc_ok k) pid syscall st) of
             None \<Rightarrow> None
           | Some (status, st1) \<Rightarrow>
               Some (status,
                 if status = 0
                 then set_entry syscall ((table st1 syscall)\<lparr>monitored := 1\<rparr>) st1
                 else st1)))"

definition request_start_monitoring :: "kernel \<Rightarrow> int \<Rightarrow> int \<Rightarrow> globals \<Rightarrow> (int \<times> globals) option" where
  "request_start_monitoring k syscall pid st =
     (case not_permitted k pid of
        None \<Rightarrow> None
      | Some True \<Rightarrow> Some (- EPERM, st)
      | Some False \<Rightarrow>
          (if pid = 0 then
             (if monitored (table st syscall) = 2 then Some (- EBUSY, st)
              else case destroy_list syscall st of
                     None \<Rightarrow> None
                   | Some st1 \<Rightarrow>
                       Some (0, set_entry syscall ((table st1 syscall)\<lparr>monitored := 2\<rparr>) st1))
           else
             (if monitored (table st syscall) \<noteq> 2 then add_and_mark k syscall pid st
              else del_pid_sysc pid syscall st)))"

definition request_stop_monitoring :: "kernel \<Rightarrow> int \<Rightarrow> int \<Rightarrow> globals \<Rightarrow> (int \<times> globals) option" where
  "request_stop_monitoring k syscall pid st =
     (case not_permitted k pid of
        None \<Rightarrow> None
      | Some True \<Rightarrow> Some (- EPERM, st)
      | Some False \<Rightarrow>
          (if pid = 0 then
             (if monitored (table st syscall) \<noteq> 2 then Some (- EINVAL, st)
              else case destroy_list syscall st of
                     None \<Rightarrow> None
                   | Some st1 \<Rightarrow> Some (0, st1))
           else
             (if monitored (table st syscall) = 2 then add_and_mark k syscall pid st
              else del_pid_sysc pid syscall st)))"

section \<open>The custom system call\<close>

text \<open>
  \<^verbatim>\<open>my_syscall\<close>: the range test, then the \<^verbatim>\<open>switch\<close> on \<^verbatim>\<open>cmd\<close>, its cases in the
  order of the source.
\<close>

definition my_syscall :: "config \<Rightarrow> kernel \<Rightarrow> int \<Rightarrow> int \<Rightarrow> int \<Rightarrow> globals \<Rightarrow> (int \<times> globals) option" where
  "my_syscall cfg k cmd syscall pid st =
     (if syscall \<le> 0 \<or> syscall > NR_syscalls cfg then Some (- EINVAL, st)
      else if cmd = REQUEST_SYSCALL_INTERCEPT cfg then
        Some (request_syscall_intercept k syscall st)
      else if cmd = REQUEST_SYSCALL_RELEASE cfg then
        Some (request_syscall_release k syscall st)
      else if cmd = REQUEST_START_MONITORING cfg then
        (if pid \<noteq> 0 \<and> pid_task k pid = None then Some (- EINVAL, st)
         else request_start_monitoring k syscall pid st)
      else if cmd = REQUEST_STOP_MONITORING cfg then
        (if pid \<noteq> 0 \<and> pid_task k pid = None then Some (- EINVAL, st)
         else request_stop_monitoring k syscall pid st)
      else Some (- EINVAL, st))"

section \<open>Module initialization and exit\<close>

text \<open>The loop of \<^verbatim>\<open>init_function\<close> over the indices \<open>ss\<close>.\<close>

fun init_loop :: "int list \<Rightarrow> globals \<Rightarrow> globals" where
  "init_loop [] st = st"
| "init_loop (s # ss) st =
     init_loop ss
       (set_entry s
          \<lparr>f = sys_call_table st s, intercepted = 0, monitored = 0, listcount = 0,
           my_list = Circular []\<rparr> st)"

text \<open>\<^verbatim>\<open>init_function\<close>: \<^verbatim>\<open>for (syscall = 0; syscall < NR_syscalls; syscall++)\<close>.\<close>

definition init_function :: "config \<Rightarrow> globals \<Rightarrow> int \<times> globals" where
  "init_function cfg st =
     (let st1 = st\<lparr>orig_custom_syscall := sys_call_table st (MY_CUSTOM_SYSCALL cfg)\<rparr>;
          st2 = st1\<lparr>sys_call_table := (sys_call_table st1)(MY_CUSTOM_SYSCALL cfg := my_syscall_fn)\<rparr>;
          st3 = st2\<lparr>orig_exit_group := sys_call_table st2 (NR_exit_group cfg)\<rparr>;
          st4 = st3\<lparr>sys_call_table := (sys_call_table st3)(NR_exit_group cfg := my_exit_group_fn)\<rparr>
      in (0, init_loop [0 .. NR_syscalls cfg - 1] st4))"

definition exit_function :: "config \<Rightarrow> globals \<Rightarrow> globals" where
  "exit_function cfg st =
     (let st1 = st\<lparr>sys_call_table := (sys_call_table st)(MY_CUSTOM_SYSCALL cfg := orig_custom_syscall st)\<rparr>
      in st1\<lparr>sys_call_table := (sys_call_table st1)(NR_exit_group cfg := orig_exit_group st1)\<rparr>)"

text \<open>
  The globals when the module is loaded: \<^verbatim>\<open>table\<close> and the two saved pointers are in
  static storage, all zero; \<^verbatim>\<open>sys_call_table\<close> is the kernel's, \<open>sct\<close>.
\<close>

definition static_globals :: "(int \<Rightarrow> handler) \<Rightarrow> globals" where
  "static_globals sct =
     \<lparr>sys_call_table = sct,
      table = (\<lambda>s. \<lparr>f = NULL_fn, intercepted = 0, monitored = 0, listcount = 0,
                    my_list = Zeroed\<rparr>),
      orig_exit_group = NULL_fn,
      orig_custom_syscall = NULL_fn\<rparr>"

text \<open>The state after loading the module over the kernel table \<open>sct\<close>.\<close>

definition loaded :: "config \<Rightarrow> (int \<Rightarrow> handler) \<Rightarrow> globals" where
  "loaded cfg sct = snd (init_function cfg (static_globals sct))"

section \<open>Notions used to state the properties\<close>

text \<open>The pids on a list, from \<^verbatim>\<open>head->next\<close> on; a \<open>Zeroed\<close> head has no node.\<close>

definition members :: "list_head \<Rightarrow> int list" where
  "members h = (case h of Zeroed \<Rightarrow> [] | Circular xs \<Rightarrow> xs)"

text \<open>
  What one round of the outer loop of \<^verbatim>\<open>del_pid\<close> makes of an entry: every node with
  the pid is gone, \<^verbatim>\<open>listcount\<close> went down once per node, and \<^verbatim>\<open>monitored\<close> went from
  1 to 0 if the count passed through 0 on the way.
\<close>

definition purged :: "int \<Rightarrow> mytable \<Rightarrow> mytable" where
  "purged pid e =
     e\<lparr>listcount := listcount e - int (count_list (members (my_list e)) pid),
       monitored := (if monitored e = 1 \<and> 1 \<le> listcount e
                        \<and> listcount e \<le> int (count_list (members (my_list e)) pid)
                     then 0 else monitored e),
       my_list := Circular (filter (\<lambda>x. x \<noteq> pid) (members (my_list e)))\<rparr>"

text \<open>\<^verbatim>\<open>listcount\<close> is the number of nodes on the list.\<close>

definition counted :: "mytable \<Rightarrow> bool" where
  "counted e = (listcount e = int (length (members (my_list e))))"

text \<open>
  The four list operations as data, and a run of a sequence of them: \<open>Add\<close> is
  \<^verbatim>\<open>add_pid_sysc\<close> (with the outcome of its \<^verbatim>\<open>kmalloc\<close>), \<open>Remove\<close> is \<^verbatim>\<open>del_pid_sysc\<close>,
  \<open>Remove_everywhere\<close> is \<^verbatim>\<open>del_pid\<close>, \<open>Clear\<close> is \<^verbatim>\<open>destroy_list\<close>. The run stops with
  \<open>None\<close> at an operation that walks a \<open>Zeroed\<close> head.
\<close>

datatype list_op = Add bool int int | Remove int int | Remove_everywhere int | Clear int

fun apply_op :: "config \<Rightarrow> list_op \<Rightarrow> globals \<Rightarrow> globals option" where
  "apply_op cfg (Add alloc pid sysc) st = map_option snd (add_pid_sysc alloc pid sysc st)"
| "apply_op cfg (Remove pid sysc) st = map_option snd (del_pid_sysc pid sysc st)"
| "apply_op cfg (Remove_everywhere pid) st = map_option snd (del_pid cfg pid st)"
| "apply_op cfg (Clear sysc) st = destroy_list sysc st"

fun run_ops :: "config \<Rightarrow> list_op list \<Rightarrow> globals \<Rightarrow> globals option" where
  "run_ops cfg [] st = Some st"
| "run_ops cfg (x # ops) st =
     (case apply_op cfg x st of None \<Rightarrow> None | Some st' \<Rightarrow> run_ops cfg ops st')"

section \<open>Concrete inputs\<close>

text \<open>
  A small configuration with five table entries, 0 to 4, the custom system call at 0
  and \<^verbatim>\<open>exit_group\<close> at 3; a task table with root's process 1, the processes 7 and 42
  of user 1000, and process 8 of user 2000.
\<close>

definition example_config :: config where
  "example_config =
     \<lparr>NR_syscalls = 4, MY_CUSTOM_SYSCALL = 0, NR_exit_group = 3,
      REQUEST_SYSCALL_INTERCEPT = 1, REQUEST_SYSCALL_RELEASE = 2,
      REQUEST_START_MONITORING = 3, REQUEST_STOP_MONITORING = 4\<rparr>"

definition example_tasks :: "int \<Rightarrow> int option" where
  "example_tasks p =
     (if p = 1 then Some 0 else if p = 7 \<or> p = 42 then Some 1000
      else if p = 8 then Some 2000 else None)"

definition example_root :: kernel where
  "example_root = \<lparr>current_pid = 1, current_uid = 0, pid_task = example_tasks, kmalloc_ok = True\<rparr>"

definition example_user :: "int \<Rightarrow> kernel" where
  "example_user p = \<lparr>current_pid = p, current_uid = 1000, pid_task = example_tasks, kmalloc_ok = True\<rparr>"

text \<open>
  Registers of a call of system call \<open>n\<close>, and a kernel whose function number \<open>n\<close>
  returns \<open>100 * n + bx\<close>.
\<close>

definition example_regs :: "int \<Rightarrow> pt_regs" where
  "example_regs n = \<lparr>ax = n, bx = 10, cx = 20, dx = 30, si = 40, di = 50, bp = 60\<rparr>"

definition example_call :: "handler \<Rightarrow> pt_regs \<Rightarrow> int" where
  "example_call h reg = (case h of kernel_fn n \<Rightarrow> 100 * n + bx reg | _ \<Rightarrow> - 1)"

text \<open>
  The loaded module with entry 2 changed: \<^verbatim>\<open>intercepted = i\<close> (and the interceptor in
  slot 2 of \<^verbatim>\<open>sys_call_table\<close> when \<open>i = 1\<close>), \<^verbatim>\<open>monitored = m\<close>, and the list \<open>xs\<close>.
\<close>

definition example_state :: "int \<Rightarrow> int \<Rightarrow> int list \<Rightarrow> globals" where
  "example_state i m xs =
     set_entry 2
       \<lparr>f = kernel_fn 2, intercepted = i, monitored = m, listcount = int (length xs),
        my_list = Circular xs\<rparr>
       ((loaded example_config kernel_fn)
          \<lparr>sys_call_table := (sys_call_table (loaded example_config kernel_fn))
             (2 := if i = 1 then interceptor_fn else kernel_fn 2)\<rparr>)"

text \<open>
  A sequence of calls of \<^verbatim>\<open>my_syscall\<close>, each with the kernel's view of its caller;
  the result is the list of return values and the last state.
\<close>

fun run_commands ::
  "config \<Rightarrow> (kernel \<times> int \<times> int \<times> int) list \<Rightarrow> globals \<Rightarrow> (int list \<times> globals) option" where
  "run_commands cfg [] st = Some ([], st)"
| "run_commands cfg ((k, cmd, syscall, pid) # cs) st =
     (case my_syscall cfg k cmd syscall pid st of
        None \<Rightarrow> None
      | Some (r, st1) \<Rightarrow>
          (case run_commands cfg cs st1 of
             None \<Rightarrow> None
           | Some (rs, st2) \<Rightarrow> Some (r # rs, st2)))"

section \<open>The interceptor under interleaving\<close>

text \<open>
  The statements of \<^verbatim>\<open>interceptor\<close> one by one, with the two spinlocks. The program
  points are in the order of the source: \<^verbatim>\<open>spin_lock(&calltable_lock)\<close>,
  \<^verbatim>\<open>spin_lock(&pidlist_lock)\<close>, \<^verbatim>\<open>hasPid = check_pid_monitored(..)\<close>,
  \<^verbatim>\<open>spin_unlock(&pidlist_lock)\<close>, \<^verbatim>\<open>spin_unlock(&calltable_lock)\<close>, the \<^verbatim>\<open>if\<close> that
  reads \<^verbatim>\<open>table[reg.ax].monitored\<close> and logs, and the call of \<^verbatim>\<open>table[reg.ax].f\<close>.
\<close>

datatype shim_pc =
    Lock_calltable
  | Lock_pidlist
  | Check_pid
  | Unlock_pidlist
  | Unlock_calltable
  | Read_monitored
  | Call_original
  | Returned

text \<open>
  The shared globals and locks, and the locals of one run of the interceptor. \<^verbatim>\<open>hasPid\<close>
  is not initialised in the source and is written before it is read; it starts at 0.
\<close>

record machine =
  m_globals :: globals
  m_calltable_lock :: bool
  m_pidlist_lock :: bool
  m_pc :: shim_pc
  m_hasPid :: int
  m_logged :: "log_line list"
  m_result :: "int option"

text \<open>
  One statement of the interceptor. Taking a lock that is held is \<open>None\<close>: the caller
  spins and the step is not taken.
\<close>

definition shim_step ::
  "kernel \<Rightarrow> (handler \<Rightarrow> pt_regs \<Rightarrow> int) \<Rightarrow> pt_regs \<Rightarrow> machine \<Rightarrow> machine option" where
  "shim_step k call reg m =
     (case m_pc m of
        Lock_calltable \<Rightarrow>
          if m_calltable_lock m then None
          else Some (m\<lparr>m_calltable_lock := True, m_pc := Lock_pidlist\<rparr>)
      | Lock_pidlist \<Rightarrow>
          if m_pidlist_lock m then None
          else Some (m\<lparr>m_pidlist_lock := True, m_pc := Check_pid\<rparr>)
      | Check_pid \<Rightarrow>
          (case check_pid_monitored (ax reg) (current_pid k) (m_globals m) of
             None \<Rightarrow> None
           | Some h \<Rightarrow> Some (m\<lparr>m_hasPid := h, m_pc := Unlock_pidlist\<rparr>))
      | Unlock_pidlist \<Rightarrow> Some (m\<lparr>m_pidlist_lock := False, m_pc := Unlock_calltable\<rparr>)
      | Unlock_calltable \<Rightarrow> Some (m\<lparr>m_calltable_lock := False, m_pc := Read_monitored\<rparr>)
      | Read_monitored \<Rightarrow>
          Some (m\<lparr>m_logged :=
                     (if (monitored (table (m_globals m) (ax reg)) = 2 \<and> m_hasPid m = 0)
                         \<or> (monitored (table (m_globals m) (ax reg)) = 1 \<and> m_hasPid m = 1)
                      then [log_message (current_pid k) (ax reg) (bx reg) (cx reg) (dx reg)
                              (si reg) (di reg) (bp reg)]
                      else []),
                   m_pc := Call_original\<rparr>)
      | Call_original \<Rightarrow>
          if f (table (m_globals m) (ax reg)) = NULL_fn then None
          else Some (m\<lparr>m_result := Some (call (f (table (m_globals m) (ax reg))) reg),
                        m_pc := Returned\<rparr>)
      | Returned \<Rightarrow> None)"

text \<open>
  A call of \<^verbatim>\<open>my_syscall\<close> by another process. Every access of the commands to \<^verbatim>\<open>table\<close>
  is made under \<^verbatim>\<open>calltable_lock\<close>, and \<^verbatim>\<open>pidlist_lock\<close> is taken inside it, so the call
  is one step, taken when both locks are free.
\<close>

definition command_step ::
  "config \<Rightarrow> kernel \<Rightarrow> int \<Rightarrow> int \<Rightarrow> int \<Rightarrow> machine \<Rightarrow> machine option" where
  "command_step cfg k cmd syscall pid m =
     (if m_calltable_lock m \<or> m_pidlist_lock m then None
      else case my_syscall cfg k cmd syscall pid (m_globals m) of
             None \<Rightarrow> None
           | Some (r, st') \<Rightarrow> Some (m\<lparr>m_globals := st'\<rparr>))"

text \<open>A schedule: which of the two runs next.\<close>

datatype move = Shim | Command kernel int int int

fun run_moves ::
  "config \<Rightarrow> kernel \<Rightarrow> (handler \<Rightarrow> pt_regs \<Rightarrow> int) \<Rightarrow> pt_regs \<Rightarrow> move list \<Rightarrow> machine
     \<Rightarrow> machine option" where
  "run_moves cfg k call reg [] m = Some m"
| "run_moves cfg k call reg (Shim # ms) m =
     (case shim_step k call reg m of
        None \<Rightarrow> None
      | Some m' \<Rightarrow> run_moves cfg k call reg ms m')"
| "run_moves cfg k call reg (Command k' cmd syscall pid # ms) m =
     (case command_step cfg k' cmd syscall pid m of
        None \<Rightarrow> None
      | Some m' \<Rightarrow> run_moves cfg k call reg ms m')"

definition shim_enters :: "globals \<Rightarrow> machine" where
  "shim_enters st =
     \<lparr>m_globals = st, m_calltable_lock = False, m_pidlist_lock = False,
      m_pc = Lock_calltable, m_hasPid = 0, m_logged = [], m_result = None\<rparr>"

text \<open>
  The shape of the table in every state that follows the loading of the module: the
  entries \<open>0\<close> to \<open>NR_syscalls - 1\<close>, which the loop of \<^verbatim>\<open>init_function\<close> visits, have a
  list that was set up and keep the handler \<open>h\<close> captured at startup; the entry
  \<open>NR_syscalls\<close> is as static storage left it.
\<close>

definition reachable_shape :: "config \<Rightarrow> (int \<Rightarrow> handler) \<Rightarrow> globals \<Rightarrow> bool" where
  "reachable_shape cfg h st =
     ((\<forall>s. 0 \<le> s \<and> s < NR_syscalls cfg \<longrightarrow>
           my_list (table st s) \<noteq> Zeroed \<and> f (table st s) = h s)
      \<and> my_list (table st (NR_syscalls cfg)) = Zeroed
      \<and> f (table st (NR_syscalls cfg)) = NULL_fn
      \<and> monitored (table st (NR_syscalls cfg)) = 0)"

text \<open>A list operation on one of the entries that \<^verbatim>\<open>init_function\<close> set up.\<close>

fun op_in_range :: "config \<Rightarrow> list_op \<Rightarrow> bool" where
  "op_in_range cfg (Add alloc pid sysc) = (0 \<le> sysc \<and> sysc < NR_syscalls cfg)"
| "op_in_range cfg (Remove pid sysc) = (0 \<le> sysc \<and> sysc < NR_syscalls cfg)"
| "op_in_range cfg (Remove_everywhere pid) = True"
| "op_in_range cfg (Clear sysc) = (0 \<le> sysc \<and> sysc < NR_syscalls cfg)"

section \<open>Facts about the list operations\<close>

lemma table_set_entry [simp]: "table (set_entry s e st) = (table st)(s := e)"
  by (simp add: set_entry_def)

lemma sys_call_table_set_entry [simp]: "sys_call_table (set_entry s e st) = sys_call_table st"
  by (simp add: set_entry_def)

lemma orig_exit_group_set_entry [simp]: "orig_exit_group (set_entry s e st) = orig_exit_group st"
  by (simp add: set_entry_def)

lemma members_simps [simp]: "members Zeroed = []" "members (Circular xs) = xs"
  by (simp_all add: members_def)

text \<open>The three loops over one list, in terms of the list functions of HOL.\<close>

lemma scan_list_member: "scan_list pid xs = (if pid \<in> set xs then 1 else 0)"
  by (induction xs) auto

lemma unlink_first_absent: "pid \<notin> set xs \<Longrightarrow> unlink_first pid xs = None"
  by (induction xs) auto

lemma unlink_first_present: "pid \<in> set xs \<Longrightarrow> unlink_first pid xs = Some (remove1 pid xs)"
  by (induction xs) auto

lemma unlink_first_length: "unlink_first pid xs = Some ys \<Longrightarrow> length xs = Suc (length ys)"
  by (induction xs arbitrary: ys) (auto split: if_splits option.splits)

lemma count_down_fields [simp]:
  "f (count_down e) = f e"
  "intercepted (count_down e) = intercepted e"
  "my_list (count_down e) = my_list e"
  "listcount (count_down e) = listcount e - 1"
  "monitored (count_down e) = (if listcount e = 1 \<and> monitored e = 1 then 0 else monitored e)"
  by (simp_all add: count_down_def Let_def)

lemma purge_list_result:
  "purge_list pid xs (e, i) =
     (filter (\<lambda>x. x \<noteq> pid) xs,
      e\<lparr>listcount := listcount e - int (count_list xs pid),
        monitored := (if monitored e = 1 \<and> 1 \<le> listcount e \<and> listcount e \<le> int (count_list xs pid)
                      then 0 else monitored e)\<rparr>,
      if pid \<in> set xs then 1 else i)"
proof (induction xs arbitrary: e i)
  case Nil
  then show ?case by simp
next
  case (Cons x xs)
  show ?case
  proof (cases "x = pid")
    case True
    then show ?thesis
      by (simp add: Cons.IH count_down_def Let_def)
  next
    case False
    then show ?thesis
      by (simp add: Cons.IH)
  qed
qed

lemma count_list_filter: "int (count_list xs pid) + int (length (filter (\<lambda>x. x \<noteq> pid) xs)) = int (length xs)"
  by (induction xs) auto

text \<open>
  \<^verbatim>\<open>del_pid\<close> returns when the heads it walks were set up, and then it has purged the
  entries \<open>1\<close> to \<open>NR_syscalls - 1\<close> and left every other entry as it was.
\<close>

lemma del_pid_loop_result:
  "distinct ss \<Longrightarrow> \<forall>s\<in>set ss. my_list (table st s) \<noteq> Zeroed \<Longrightarrow>
   del_pid_loop pid ss (st, i) =
     Some (st\<lparr>table := (\<lambda>s. if s \<in> set ss then purged pid (table st s) else table st s)\<rparr>,
           if \<exists>s\<in>set ss. pid \<in> set (members (my_list (table st s))) then 1 else i)"
proof (induction ss arbitrary: st i)
  case Nil
  then show ?case by simp
next
  case (Cons s ss)
  obtain xs where xs: "my_list (table st s) = Circular xs"
    using Cons.prems(2) by (cases "my_list (table st s)") auto
  let ?e = "(table st s)\<lparr>listcount := listcount (table st s) - int (count_list xs pid),
        monitored := (if monitored (table st s) = 1 \<and> 1 \<le> listcount (table st s)
                         \<and> listcount (table st s) \<le> int (count_list xs pid)
                      then 0 else monitored (table st s))\<rparr>"
  let ?st1 = "set_entry s (?e\<lparr>my_list := Circular (filter (\<lambda>x. x \<noteq> pid) xs)\<rparr>) st"
  let ?i1 = "if pid \<in> set xs then 1 else i"
  have step: "del_pid_loop pid (s # ss) (st, i) = del_pid_loop pid ss (?st1, ?i1)"
    by (simp add: xs purge_list_result)
  have d: "distinct ss" and notin: "s \<notin> set ss"
    using Cons.prems(1) by auto
  have heads: "\<forall>t\<in>set ss. my_list (table ?st1 t) \<noteq> Zeroed"
    using Cons.prems(2) notin by auto
  have e1: "?e\<lparr>my_list := Circular (filter (\<lambda>x. x \<noteq> pid) xs)\<rparr> = purged pid (table st s)"
    by (simp add: purged_def xs)
  have tab: "(\<lambda>t. if t \<in> set ss then purged pid (table ?st1 t) else table ?st1 t)
             = (\<lambda>t. if t \<in> set (s # ss) then purged pid (table st t) else table st t)"
    using notin e1 by (auto simp: fun_eq_iff)
  have flag: "(if \<exists>t\<in>set ss. pid \<in> set (members (my_list (table ?st1 t))) then 1 else ?i1)
              = (if \<exists>t\<in>set (s # ss). pid \<in> set (members (my_list (table st t))) then 1 else i)"
    using notin xs by auto
  show ?case
    unfolding step Cons.IH [OF d heads] tab flag
    by (simp add: set_entry_def)
qed

lemma del_pid_result:
  assumes "\<forall>s\<in>{1..<NR_syscalls cfg}. my_list (table st s) \<noteq> Zeroed"
  shows "del_pid cfg pid st =
     Some (if \<exists>s\<in>{1..<NR_syscalls cfg}. pid \<in> set (members (my_list (table st s))) then 0 else - 1,
           st\<lparr>table := (\<lambda>s. if 1 \<le> s \<and> s < NR_syscalls cfg then purged pid (table st s) else table st s)\<rparr>)"
proof -
  have s: "set [1 .. NR_syscalls cfg - 1] = {1..<NR_syscalls cfg}"
    by auto
  have h: "\<forall>s\<in>set [1 .. NR_syscalls cfg - 1]. my_list (table st s) \<noteq> Zeroed"
    using assms by auto
  have t: "(\<lambda>s. if s \<in> {1..<NR_syscalls cfg} then purged pid (table st s) else table st s)
         = (\<lambda>s. if 1 \<le> s \<and> s < NR_syscalls cfg then purged pid (table st s) else table st s)"
    by (auto simp: fun_eq_iff)
  show ?thesis
    unfolding del_pid_def del_pid_loop_result [OF distinct_upto h] s t
    by simp
qed

section \<open>Facts about the loaded module\<close>

lemma init_loop_result:
  "init_loop ss st =
     st\<lparr>table := (\<lambda>s. if s \<in> set ss
                       then \<lparr>f = sys_call_table st s, intercepted = 0, monitored = 0,
                             listcount = 0, my_list = Circular []\<rparr>
                       else table st s)\<rparr>"
proof (induction ss arbitrary: st)
  case Nil
  then show ?case by simp
next
  case (Cons s ss)
  show ?case
    by (simp add: Cons.IH set_entry_def fun_eq_iff)
qed

lemma sys_call_table_loaded:
  "sys_call_table (loaded cfg sct) =
     (sct(MY_CUSTOM_SYSCALL cfg := my_syscall_fn))(NR_exit_group cfg := my_exit_group_fn)"
  by (simp add: loaded_def init_function_def init_loop_result static_globals_def Let_def)

lemma table_loaded:
  "table (loaded cfg sct) s =
     (if 0 \<le> s \<and> s < NR_syscalls cfg
      then \<lparr>f = sys_call_table (loaded cfg sct) s, intercepted = 0, monitored = 0,
            listcount = 0, my_list = Circular []\<rparr>
      else \<lparr>f = NULL_fn, intercepted = 0, monitored = 0, listcount = 0, my_list = Zeroed\<rparr>)"
  by (simp add: loaded_def init_function_def init_loop_result static_globals_def Let_def)

lemma captured_at_startup:
  "0 \<le> s \<Longrightarrow> s < NR_syscalls cfg \<Longrightarrow>
   f (table (loaded cfg sct) s) = sys_call_table (loaded cfg sct) s"
  by (simp add: table_loaded)

lemma not_captured_at_startup:
  "f (table (loaded cfg sct) (NR_syscalls cfg)) = NULL_fn"
  by (simp add: table_loaded)

lemma reachable_shape_loaded:
  "reachable_shape cfg (sys_call_table (loaded cfg sct)) (loaded cfg sct)"
  by (simp add: reachable_shape_def table_loaded)

text \<open>Every command keeps the shape of the table.\<close>

lemma request_syscall_intercept_shape:
  "reachable_shape cfg h st \<Longrightarrow> request_syscall_intercept k s st = (r, st') \<Longrightarrow>
   reachable_shape cfg h st'"
  by (auto simp: reachable_shape_def request_syscall_intercept_def Let_def split: if_splits)

lemma request_syscall_release_shape:
  "reachable_shape cfg h st \<Longrightarrow> request_syscall_release k s st = (r, st') \<Longrightarrow>
   reachable_shape cfg h st'"
  by (auto simp: reachable_shape_def request_syscall_release_def Let_def split: if_splits)

lemma destroy_list_shape:
  "reachable_shape cfg h st \<Longrightarrow> destroy_list s st = Some st' \<Longrightarrow> reachable_shape cfg h st'"
  by (auto simp: reachable_shape_def destroy_list_def split: list_head.splits if_splits)

lemma del_pid_sysc_shape:
  "reachable_shape cfg h st \<Longrightarrow> del_pid_sysc pid s st = Some (r, st') \<Longrightarrow>
   reachable_shape cfg h st'"
  by (auto simp: reachable_shape_def del_pid_sysc_def split: list_head.splits option.splits if_splits)

lemma add_and_mark_shape:
  "reachable_shape cfg h st \<Longrightarrow> add_and_mark k s pid st = Some (r, st') \<Longrightarrow>
   reachable_shape cfg h st'"
  by (auto simp: reachable_shape_def add_and_mark_def check_pid_monitored_def add_pid_sysc_def
           split: list_head.splits option.splits if_splits)

lemma request_start_monitoring_shape:
  "reachable_shape cfg h st \<Longrightarrow> request_start_monitoring k s pid st = Some (r, st') \<Longrightarrow>
   reachable_shape cfg h st'"
proof -
  assume sh: "reachable_shape cfg h st" and run: "request_start_monitoring k s pid st = Some (r, st')"
  consider (perm) "st' = st"
    | (all) st1 where "destroy_list s st = Some st1"
        "st' = set_entry s ((table st1 s)\<lparr>monitored := 2\<rparr>) st1"
    | (add) "add_and_mark k s pid st = Some (r, st')"
    | (del) "del_pid_sysc pid s st = Some (r, st')"
    using run
    by (auto simp: request_start_monitoring_def split: option.splits bool.splits if_splits)
  then show ?thesis
  proof cases
    case perm
    then show ?thesis using sh by simp
  next
    case all
    have "s \<noteq> NR_syscalls cfg"
      using all(1) sh by (auto simp: destroy_list_def reachable_shape_def)
    then show ?thesis
      using destroy_list_shape [OF sh all(1)] all(2) by (auto simp: reachable_shape_def)
  next
    case add
    then show ?thesis using sh by (rule add_and_mark_shape [rotated])
  next
    case del
    then show ?thesis using sh by (rule del_pid_sysc_shape [rotated])
  qed
qed

lemma request_stop_monitoring_shape:
  "reachable_shape cfg h st \<Longrightarrow> request_stop_monitoring k s pid st = Some (r, st') \<Longrightarrow>
   reachable_shape cfg h st'"
proof -
  assume sh: "reachable_shape cfg h st" and run: "request_stop_monitoring k s pid st = Some (r, st')"
  consider (perm) "st' = st"
    | (all) "destroy_list s st = Some st'"
    | (add) "add_and_mark k s pid st = Some (r, st')"
    | (del) "del_pid_sysc pid s st = Some (r, st')"
    using run
    by (auto simp: request_stop_monitoring_def split: option.splits bool.splits if_splits)
  then show ?thesis
  proof cases
    case perm
    then show ?thesis using sh by simp
  next
    case all
    then show ?thesis using sh by (rule destroy_list_shape [rotated])
  next
    case add
    then show ?thesis using sh by (rule add_and_mark_shape [rotated])
  next
    case del
    then show ?thesis using sh by (rule del_pid_sysc_shape [rotated])
  qed
qed

lemma my_syscall_shape:
  "reachable_shape cfg h st \<Longrightarrow> my_syscall cfg k cmd s pid st = Some (r, st') \<Longrightarrow>
   reachable_shape cfg h st'"
  by (auto simp: my_syscall_def split: if_splits
           dest: request_syscall_intercept_shape request_syscall_release_shape
                 request_start_monitoring_shape request_stop_monitoring_shape)

lemma run_commands_shape:
  "reachable_shape cfg h st \<Longrightarrow> run_commands cfg cs st = Some (rs, st') \<Longrightarrow>
   reachable_shape cfg h st'"
proof (induction cs arbitrary: st rs)
  case Nil
  then show ?case by simp
next
  case (Cons c cs)
  obtain k cmd s pid where c: "c = (k, cmd, s, pid)"
    by (cases c) auto
  from Cons.prems(2) obtain r st1 rs1 where
    one: "my_syscall cfg k cmd s pid st = Some (r, st1)" and
    rest: "run_commands cfg cs st1 = Some (rs1, st')"
    by (auto simp: c split: option.splits)
  show ?case
    using Cons.IH [OF my_syscall_shape [OF Cons.prems(1) one] rest] .
qed

lemma del_pid_shape:
  "reachable_shape cfg h st \<Longrightarrow> del_pid cfg pid st = Some (r, st') \<Longrightarrow> reachable_shape cfg h st'"
proof -
  assume sh: "reachable_shape cfg h st" and run: "del_pid cfg pid st = Some (r, st')"
  have heads: "\<forall>s\<in>{1..<NR_syscalls cfg}. my_list (table st s) \<noteq> Zeroed"
    using sh by (auto simp: reachable_shape_def)
  show ?thesis
    using run sh unfolding del_pid_result [OF heads]
    by (auto simp: reachable_shape_def purged_def split: if_splits)
qed

text \<open>
  In such a state the monitoring commands on the entry \<open>NR_syscalls\<close> walk a head that
  was never set up, all but \<^verbatim>\<open>request_stop_monitoring\<close> with pid 0, which returns
  \<^verbatim>\<open>-EINVAL\<close> before it touches the list.
\<close>

lemma monitoring_last_entry_faults:
  assumes "reachable_shape cfg h st" and "current_uid k = 0"
  shows "request_start_monitoring k (NR_syscalls cfg) pid st = None"
    and "request_stop_monitoring k (NR_syscalls cfg) pid st =
           (if pid = 0 then Some (- EINVAL, st) else None)"
  using assms
  by (simp_all add: reachable_shape_def request_start_monitoring_def request_stop_monitoring_def
        not_permitted_def destroy_list_def add_and_mark_def check_pid_monitored_def
        del_pid_sysc_def)

section \<open>The count of a list\<close>

lemma counted_purged: "counted e \<Longrightarrow> counted (purged pid e)"
  using count_list_filter [of "members (my_list e)" pid]
  by (simp add: counted_def purged_def)

lemma add_pid_sysc_counted:
  "add_pid_sysc alloc pid sysc st = Some (r, st') \<Longrightarrow> \<forall>s. counted (table st s) \<Longrightarrow> counted (table st' s)"
  by (auto simp: add_pid_sysc_def counted_def split: if_splits list_head.splits)

lemma del_pid_sysc_counted:
  "del_pid_sysc pid sysc st = Some (r, st') \<Longrightarrow> \<forall>s. counted (table st s) \<Longrightarrow> counted (table st' s)"
  by (auto simp: del_pid_sysc_def counted_def dest: unlink_first_length
           split: if_splits list_head.splits option.splits)

lemma destroy_list_counted:
  "destroy_list sysc st = Some st' \<Longrightarrow> \<forall>s. counted (table st s) \<Longrightarrow> counted (table st' s)"
  by (auto simp: destroy_list_def counted_def split: if_splits list_head.splits)

lemma del_pid_loop_counted:
  "del_pid_loop pid ss (st, i) = Some (st', i') \<Longrightarrow> \<forall>s. counted (table st s) \<Longrightarrow> counted (table st' s)"
proof (induction ss arbitrary: st i)
  case Nil
  then show ?case by simp
next
  case (Cons t ss)
  obtain xs where xs: "my_list (table st t) = Circular xs"
    using Cons.prems(1) by (cases "my_list (table st t)") auto
  let ?st1 = "set_entry t (purged pid (table st t)) st"
  have "del_pid_loop pid ss (?st1, if pid \<in> set xs then 1 else i) = Some (st', i')"
    using Cons.prems(1) by (simp add: xs purge_list_result purged_def)
  moreover have "\<forall>s. counted (table ?st1 s)"
    using Cons.prems(2) by (simp add: counted_purged)
  ultimately show ?case by (rule Cons.IH)
qed

lemma del_pid_counted:
  "del_pid cfg pid st = Some (r, st') \<Longrightarrow> \<forall>s. counted (table st s) \<Longrightarrow> counted (table st' s)"
  by (auto simp: del_pid_def split: option.splits dest: del_pid_loop_counted)

lemma apply_op_counted:
  "apply_op cfg x st = Some st' \<Longrightarrow> \<forall>s. counted (table st s) \<Longrightarrow> counted (table st' s)"
  by (cases x)
     (auto dest: add_pid_sysc_counted del_pid_sysc_counted del_pid_counted destroy_list_counted)

lemma counted_loaded: "counted (table (loaded cfg sct) s)"
  by (simp add: table_loaded counted_def)

text \<open>A sequence of list operations on entries that were set up runs to its end.\<close>

lemma apply_op_returns:
  assumes "\<forall>s. 0 \<le> s \<and> s < NR_syscalls cfg \<longrightarrow> my_list (table st s) \<noteq> Zeroed"
    and "op_in_range cfg x"
  shows "\<exists>st'. apply_op cfg x st = Some st'
           \<and> (\<forall>s. 0 \<le> s \<and> s < NR_syscalls cfg \<longrightarrow> my_list (table st' s) \<noteq> Zeroed)"
proof (cases x)
  case (Add alloc pid sysc)
  then show ?thesis
    using assms by (cases "my_list (table st sysc)") (auto simp: add_pid_sysc_def)
next
  case (Remove pid sysc)
  then show ?thesis
    using assms
    by (cases "my_list (table st sysc)") (auto simp: del_pid_sysc_def split: option.splits)
next
  case (Remove_everywhere pid)
  have heads: "\<forall>s\<in>{1..<NR_syscalls cfg}. my_list (table st s) \<noteq> Zeroed"
    using assms(1) by auto
  show ?thesis
    using assms(1) by (simp add: Remove_everywhere del_pid_result [OF heads] purged_def)
next
  case (Clear sysc)
  then show ?thesis
    using assms by (cases "my_list (table st sysc)") (auto simp: destroy_list_def)
qed

lemma run_ops_returns:
  "\<forall>s. 0 \<le> s \<and> s < NR_syscalls cfg \<longrightarrow> my_list (table st s) \<noteq> Zeroed \<Longrightarrow>
   list_all (op_in_range cfg) ops \<Longrightarrow> \<exists>st'. run_ops cfg ops st = Some st'"
proof (induction ops arbitrary: st)
  case Nil
  then show ?case by simp
next
  case (Cons x ops)
  obtain st1 where a: "apply_op cfg x st = Some st1"
    and h: "\<forall>s. 0 \<le> s \<and> s < NR_syscalls cfg \<longrightarrow> my_list (table st1 s) \<noteq> Zeroed"
    using apply_op_returns [OF Cons.prems(1), of x] Cons.prems(2) by auto
  show ?case
    using Cons.IH [OF h] Cons.prems(2) a by simp
qed

text \<open>
  Claim C8. For every entry of the table, after any sequence of \<^verbatim>\<open>add_pid_sysc\<close>,
  \<^verbatim>\<open>del_pid_sysc\<close>, \<^verbatim>\<open>del_pid\<close> and \<^verbatim>\<open>destroy_list\<close> that starts in a state where
  \<^verbatim>\<open>listcount\<close> is the length of each list (as after \<^verbatim>\<open>init_function\<close>, by
  \<open>counted_loaded\<close>), \<^verbatim>\<open>listcount\<close> is again the number of nodes on the entry's list.
\<close>

theorem listcount_is_length:
  "\<forall>s. counted (table st s) \<Longrightarrow> run_ops cfg ops st = Some st' \<Longrightarrow>
   listcount (table st' s) = int (length (members (my_list (table st' s))))"
proof (induction ops arbitrary: st)
  case Nil
  then show ?case by (simp add: counted_def)
next
  case (Cons x ops)
  obtain st1 where a: "apply_op cfg x st = Some st1" and r: "run_ops cfg ops st1 = Some st'"
    using Cons.prems(2) by (auto split: option.splits)
  have "\<forall>s. counted (table st1 s)"
    using apply_op_counted [OF a Cons.prems(1)] by simp
  then show ?case using r by (rule Cons.IH)
qed

theorem listcount_is_length_witness:
  "(\<forall>s. counted (table (loaded example_config kernel_fn) s))
   \<and> (\<exists>st'. run_ops example_config
        [Add True 42 2, Add True 7 2, Add True 42 1, Add False 9 1, Remove 7 2,
         Remove_everywhere 42, Add True 5 3, Clear 3]
        (loaded example_config kernel_fn) = Some st'
      \<and> listcount (table st' 2) = int (length (members (my_list (table st' 2)))))"
proof -
  have c: "\<forall>s. counted (table (loaded example_config kernel_fn) s)"
    by (simp add: counted_loaded)
  have "run_ops example_config
        [Add True 42 2, Add True 7 2, Add True 42 1, Add False 9 1, Remove 7 2,
         Remove_everywhere 42, Add True 5 3, Clear 3]
        (loaded example_config kernel_fn) \<noteq> None"
    by code_simp
  then obtain st' where r: "run_ops example_config
        [Add True 42 2, Add True 7 2, Add True 42 1, Add False 9 1, Remove 7 2,
         Remove_everywhere 42, Add True 5 3, Clear 3]
        (loaded example_config kernel_fn) = Some st'"
    by auto
  show ?thesis
    using c r listcount_is_length [OF c r, of 2] by blast
qed

section \<open>Properties of the interceptor\<close>

text \<open>
  Claim C6. A call of the interceptor by process \<open>p = current_pid k\<close> on an entry whose
  list was set up and whose handler was captured logs exactly one line if
  (\<^verbatim>\<open>monitored = 2\<close> and \<open>p\<close> is not on the list) or (\<^verbatim>\<open>monitored = 1\<close> and \<open>p\<close> is on the
  list), and no line otherwise, so none when \<^verbatim>\<open>monitored = 0\<close>; in every case the value
  returned is that of the captured handler \<^verbatim>\<open>f\<close> called on the same registers.
\<close>

theorem interceptor_logs_iff:
  assumes "my_list (table st (ax reg)) = Circular xs"
    and "f (table st (ax reg)) \<noteq> NULL_fn"
  shows "interceptor k call reg st =
     Some (if (monitored (table st (ax reg)) = 2 \<and> current_pid k \<notin> set xs)
              \<or> (monitored (table st (ax reg)) = 1 \<and> current_pid k \<in> set xs)
           then [log_message (current_pid k) (ax reg) (bx reg) (cx reg) (dx reg)
                   (si reg) (di reg) (bp reg)]
           else [],
           call (f (table st (ax reg))) reg)"
  using assms
  by (simp add: interceptor_def check_pid_monitored_def scan_list_member Let_def)

theorem interceptor_logs_iff_witness:
  "my_list (table (example_state 1 2 [42]) (ax (example_regs 2))) = Circular [42]
   \<and> f (table (example_state 1 2 [42]) (ax (example_regs 2))) \<noteq> NULL_fn
   \<and> interceptor (example_user 7) example_call (example_regs 2) (example_state 1 2 [42])
       = Some ([log_message 7 2 10 20 30 40 50 60], 210)"
proof -
  have a: "my_list (table (example_state 1 2 [42]) (ax (example_regs 2))) = Circular [42]"
    by (simp add: example_state_def example_regs_def)
  have b: "f (table (example_state 1 2 [42]) (ax (example_regs 2))) \<noteq> NULL_fn"
    by (simp add: example_state_def example_regs_def)
  show ?thesis
    using a b interceptor_logs_iff [OF a b, of "example_user 7" example_call]
    by (simp add: example_state_def example_regs_def example_user_def example_call_def)
qed

text \<open>The seven statements of the interceptor, run without interruption, are \<^verbatim>\<open>interceptor\<close>.\<close>

lemma shim_alone:
  "run_moves cfg k call reg [Shim, Shim, Shim, Shim, Shim, Shim, Shim] (shim_enters st) =
     (case interceptor k call reg st of
        None \<Rightarrow> None
      | Some (l, r) \<Rightarrow>
          Some ((shim_enters st)
                  \<lparr>m_pc := Returned, m_hasPid := scan_list (current_pid k) (members (my_list (table st (ax reg)))),
                   m_logged := l, m_result := Some r\<rparr>))"
  by (cases "my_list (table st (ax reg))")
     (simp_all add: shim_step_def shim_enters_def interceptor_def check_pid_monitored_def Let_def)

text \<open>
  Whenever the list of the entry was set up, the first five statements leave both locks
  free and \<^verbatim>\<open>monitored\<close> unread.
\<close>

lemma shim_unlocked_before_reading_mode:
  assumes "my_list (table st (ax reg)) = Circular xs"
  shows "run_moves cfg k call reg [Shim, Shim, Shim, Shim, Shim] (shim_enters st) =
           Some ((shim_enters st)\<lparr>m_pc := Read_monitored,
                   m_hasPid := (if current_pid k \<in> set xs then 1 else 0)\<rparr>)"
  using assms
  by (simp add: shim_step_def shim_enters_def check_pid_monitored_def scan_list_member)

text \<open>
  Claim C3. The interceptor does not hold the two locks across both reads. With entry 2
  in mode 1 (whitelist) and pid 42 on its list, process 42 calls system call 2: after
  the first five statements \<^verbatim>\<open>hasPid\<close> is 1, both locks are free again, and
  \<^verbatim>\<open>monitored\<close> is still to be read. Root's \<^verbatim>\<open>REQUEST_START_MONITORING\<close> for pid 0 runs
  at that point, empties the list and sets mode 2. The interceptor then reads mode 2
  with \<^verbatim>\<open>hasPid = 1\<close> and logs nothing, although the call is logged in the state before
  the command and in the state after it.
\<close>

theorem interceptor_reads_mode_unlocked:
  "run_moves example_config (example_user 42) example_call (example_regs 2)
      [Shim, Shim, Shim, Shim, Shim] (shim_enters (example_state 1 1 [42]))
     = Some \<lparr>m_globals = example_state 1 1 [42], m_calltable_lock = False,
             m_pidlist_lock = False, m_pc = Read_monitored, m_hasPid = 1, m_logged = [],
             m_result = None\<rparr>
   \<and> run_moves example_config (example_user 42) example_call (example_regs 2)
      [Shim, Shim, Shim, Shim, Shim,
       Command example_root (REQUEST_START_MONITORING example_config) 2 0,
       Shim, Shim] (shim_enters (example_state 1 1 [42]))
     = Some \<lparr>m_globals = example_state 1 2 [], m_calltable_lock = False,
             m_pidlist_lock = False, m_pc = Returned, m_hasPid = 1, m_logged = [],
             m_result = Some 210\<rparr>
   \<and> interceptor (example_user 42) example_call (example_regs 2) (example_state 1 1 [42])
     = Some ([log_message 42 2 10 20 30 40 50 60], 210)
   \<and> interceptor (example_user 42) example_call (example_regs 2) (example_state 1 2 [])
     = Some ([log_message 42 2 10 20 30 40 50 60], 210)"
  by (simp add: shim_step_def command_step_def shim_enters_def
        example_config_def example_root_def example_user_def example_tasks_def
        example_regs_def example_call_def example_state_def my_syscall_def
        request_start_monitoring_def not_permitted_def destroy_list_def
        check_pid_monitored_def interceptor_def
        table_loaded sys_call_table_loaded set_entry_def Let_def)

section \<open>Removing pids\<close>

text \<open>
  Claim C7. On an entry whose \<^verbatim>\<open>listcount\<close> is the length of its list, removing a pid
  with \<^verbatim>\<open>del_pid_sysc\<close>, or with \<^verbatim>\<open>del_pid\<close> on an entry \<open>1 \<le> s < NR_syscalls\<close>, resets
  \<^verbatim>\<open>monitored\<close> from 1 to 0 exactly when the list became empty, and leaves every other
  value of \<^verbatim>\<open>monitored\<close>, 2 among them, as it was.
\<close>

theorem last_member_removal_resets_whitelist_only:
  assumes "my_list (table st s) = Circular xs"
    and "listcount (table st s) = int (length xs)"
    and "pid \<in> set xs"
  shows "(\<exists>st'. del_pid_sysc pid s st = Some (0, st')
            \<and> my_list (table st' s) = Circular (remove1 pid xs)
            \<and> monitored (table st' s) =
                (if monitored (table st s) = 1 \<and> remove1 pid xs = [] then 0
                 else monitored (table st s)))
       \<and> (1 \<le> s \<and> s < NR_syscalls cfg
            \<and> (\<forall>t\<in>{1..<NR_syscalls cfg}. my_list (table st t) \<noteq> Zeroed) \<longrightarrow>
          (\<exists>st'. del_pid cfg pid st = Some (0, st')
            \<and> my_list (table st' s) = Circular (filter (\<lambda>x. x \<noteq> pid) xs)
            \<and> monitored (table st' s) =
                (if monitored (table st s) = 1 \<and> filter (\<lambda>x. x \<noteq> pid) xs = [] then 0
                 else monitored (table st s))))"
proof (intro conjI impI)
  have len: "length xs = Suc (length (remove1 pid xs))"
    using assms(3) by (simp add: length_remove1) (cases xs; simp)
  have "remove1 pid xs = [] \<longleftrightarrow> length xs = 1"
    using len by auto
  then show "\<exists>st'. del_pid_sysc pid s st = Some (0, st')
            \<and> my_list (table st' s) = Circular (remove1 pid xs)
            \<and> monitored (table st' s) =
                (if monitored (table st s) = 1 \<and> remove1 pid xs = [] then 0
                 else monitored (table st s))"
    using assms by (simp add: del_pid_sysc_def unlink_first_present)
next
  assume h: "1 \<le> s \<and> s < NR_syscalls cfg
            \<and> (\<forall>t\<in>{1..<NR_syscalls cfg}. my_list (table st t) \<noteq> Zeroed)"
  then have heads: "\<forall>t\<in>{1..<NR_syscalls cfg}. my_list (table st t) \<noteq> Zeroed"
    by simp
  have ex: "\<exists>t\<in>{1..<NR_syscalls cfg}. pid \<in> set (members (my_list (table st t)))"
    using h assms(1,3) by (intro bexI [of _ s]) auto
  have pos: "1 \<le> int (length xs)"
    using assms(3) by (cases xs) auto
  have "int (length xs) \<le> int (count_list xs pid) \<longleftrightarrow> length (filter (\<lambda>x. x \<noteq> pid) xs) = 0"
    using count_list_filter [of xs pid] by linarith
  then have "int (length xs) \<le> int (count_list xs pid) \<longleftrightarrow> filter (\<lambda>x. x \<noteq> pid) xs = []"
    by simp
  then show "\<exists>st'. del_pid cfg pid st = Some (0, st')
            \<and> my_list (table st' s) = Circular (filter (\<lambda>x. x \<noteq> pid) xs)
            \<and> monitored (table st' s) =
                (if monitored (table st s) = 1 \<and> filter (\<lambda>x. x \<noteq> pid) xs = [] then 0
                 else monitored (table st s))"
    using h ex pos assms(1,2) by (simp add: del_pid_result [OF heads] purged_def)
qed

theorem last_member_removal_resets_whitelist_only_witness:
  "my_list (table (example_state 1 1 [42]) 2) = Circular [42]
   \<and> listcount (table (example_state 1 1 [42]) 2) = int (length [42::int])
   \<and> (42::int) \<in> set [42]
   \<and> (\<exists>st'. del_pid_sysc 42 2 (example_state 1 1 [42]) = Some (0, st')
          \<and> my_list (table st' 2) = Circular [] \<and> monitored (table st' 2) = 0)
   \<and> (\<exists>st'. del_pid example_config 42 (example_state 1 1 [42]) = Some (0, st')
          \<and> my_list (table st' 2) = Circular [] \<and> monitored (table st' 2) = 0)"
proof -
  have a: "my_list (table (example_state 1 1 [42]) 2) = Circular [42]"
    by (simp add: example_state_def)
  have b: "listcount (table (example_state 1 1 [42]) 2) = int (length [42::int])"
    by (simp add: example_state_def)
  have c: "(42::int) \<in> set [42]"
    by simp
  have m: "monitored (table (example_state 1 1 [42]) 2) = 1"
    by (simp add: example_state_def)
  have h: "\<forall>t\<in>{1..<NR_syscalls example_config}.
             my_list (table (example_state 1 1 [42]) t) \<noteq> Zeroed"
    by (simp add: example_state_def table_loaded example_config_def)
  have n: "(1::int) \<le> 2 \<and> 2 < NR_syscalls example_config"
    by (simp add: example_config_def)
  show ?thesis
    using a b c last_member_removal_resets_whitelist_only [OF a b c, of example_config] m h n
    by simp
qed

text \<open>
  What \<^verbatim>\<open>my_exit_group\<close> does when the heads of the entries \<open>1\<close> to \<open>NR_syscalls - 1\<close>
  were set up: the pid is on none of these lists afterwards, the other entries are
  untouched, and the handler called last is \<^verbatim>\<open>orig_exit_group\<close>.
\<close>

lemma my_exit_group_purges_below_last:
  assumes "\<forall>s\<in>{1..<NR_syscalls cfg}. my_list (table st s) \<noteq> Zeroed"
  shows "\<exists>st'. my_exit_group cfg k status st = Some (st', orig_exit_group st, status)
           \<and> (\<forall>s. 1 \<le> s \<and> s < NR_syscalls cfg \<longrightarrow>
                 current_pid k \<notin> set (members (my_list (table st' s))))
           \<and> (\<forall>s. s < 1 \<or> NR_syscalls cfg \<le> s \<longrightarrow> table st' s = table st s)"
  unfolding my_exit_group_def del_pid_result [OF assms]
  by (simp add: purged_def)

text \<open>\<^verbatim>\<open>my_exit_group\<close> keeps the shape of the table as well.\<close>

lemma my_exit_group_shape:
  "reachable_shape cfg h st \<Longrightarrow> my_exit_group cfg k status st = Some (st', g, a) \<Longrightarrow>
   reachable_shape cfg h st'"
  by (auto simp: my_exit_group_def split: option.splits dest: del_pid_shape)

text \<open>
  Claim C4. In every state with the shape that the loading of the module gives and every
  command keeps, the exit of process \<open>p = current_pid k\<close> returns from \<^verbatim>\<open>del_pid\<close> and
  then calls \<^verbatim>\<open>orig_exit_group\<close> with the same status; afterwards \<open>p\<close> is on the list of
  no entry \<open>0 < s \<le> NR_syscalls\<close>. The entries \<open>0 < s < NR_syscalls\<close> were purged, with
  the reset of \<^verbatim>\<open>monitored\<close> from 1 to 0 when the count reached 0; the loop does not
  visit the entry \<open>NR_syscalls\<close>, whose head was never set up and has no node.
\<close>

theorem my_exit_group_purges_every_list:
  assumes "reachable_shape cfg h st"
  shows "\<exists>st'. my_exit_group cfg k status st = Some (st', orig_exit_group st, status)
     \<and> (\<forall>s. 0 < s \<and> s \<le> NR_syscalls cfg \<longrightarrow>
           current_pid k \<notin> set (members (my_list (table st' s))))
     \<and> (\<forall>s. 0 < s \<and> s < NR_syscalls cfg \<longrightarrow>
           table st' s = purged (current_pid k) (table st s))
     \<and> table st' (NR_syscalls cfg) = table st (NR_syscalls cfg)"
proof -
  have heads: "\<forall>s\<in>{1..<NR_syscalls cfg}. my_list (table st s) \<noteq> Zeroed"
    using assms by (auto simp: reachable_shape_def)
  have last: "my_list (table st (NR_syscalls cfg)) = Zeroed"
    using assms by (simp add: reachable_shape_def)
  show ?thesis
    unfolding my_exit_group_def del_pid_result [OF heads]
    using last by (auto simp: purged_def)
qed

theorem my_exit_group_purges_every_list_witness:
  "reachable_shape example_config (sys_call_table (loaded example_config kernel_fn))
     (example_state 1 1 [42])
   \<and> (\<exists>st'. my_exit_group example_config (example_user 42) 0 (example_state 1 1 [42])
              = Some (st', kernel_fn 3, 0)
         \<and> 42 \<notin> set (members (my_list (table st' 2)))
         \<and> 42 \<notin> set (members (my_list (table st' 4)))
         \<and> monitored (table st' 2) = 0)"
proof -
  have sh: "reachable_shape example_config (sys_call_table (loaded example_config kernel_fn))
     (example_state 1 1 [42])"
    by (simp add: reachable_shape_def example_state_def table_loaded sys_call_table_loaded
          example_config_def)
  have o: "orig_exit_group (example_state 1 1 [42]) = kernel_fn 3"
    by (simp add: example_state_def loaded_def init_function_def init_loop_result
          static_globals_def example_config_def Let_def)
  have p: "current_pid (example_user 42) = 42"
    by (simp add: example_user_def)
  have n: "NR_syscalls example_config = 4"
    by (simp add: example_config_def)
  have m: "monitored (purged 42 (table (example_state 1 1 [42]) 2)) = 0"
    by (simp add: purged_def example_state_def)
  from my_exit_group_purges_every_list [OF sh, of "example_user 42" 0]
  obtain st' where
    r: "my_exit_group example_config (example_user 42) 0 (example_state 1 1 [42])
          = Some (st', orig_exit_group (example_state 1 1 [42]), 0)"
    and a: "\<forall>s. 0 < s \<and> s \<le> NR_syscalls example_config \<longrightarrow>
           current_pid (example_user 42) \<notin> set (members (my_list (table st' s)))"
    and b: "\<forall>s. 0 < s \<and> s < NR_syscalls example_config \<longrightarrow>
           table st' s = purged (current_pid (example_user 42)) (table (example_state 1 1 [42]) s)"
    by blast
  have "42 \<notin> set (members (my_list (table st' 2)))" "42 \<notin> set (members (my_list (table st' 4)))"
    using a p n by auto
  moreover have "monitored (table st' 2) = 0"
    using b p n m by simp
  ultimately show ?thesis
    using sh r o by auto
qed

section \<open>Intercepting and releasing\<close>

text \<open>
  Root's intercept followed by release of an entry that was not intercepted stores the
  entry's \<^verbatim>\<open>f\<close> in the slot of \<^verbatim>\<open>sys_call_table\<close> and changes nothing else. By
  \<open>captured_at_startup\<close> that is the handler found at startup for \<open>s < NR_syscalls\<close>.
\<close>

lemma intercept_then_release:
  assumes "current_uid k = 0" and "current_uid k' = 0"
    and "0 < s" and "s \<le> NR_syscalls cfg"
    and "intercepted (table st s) = 0"
    and "REQUEST_SYSCALL_INTERCEPT cfg \<noteq> REQUEST_SYSCALL_RELEASE cfg"
  shows "run_commands cfg
           [(k, REQUEST_SYSCALL_INTERCEPT cfg, s, p), (k', REQUEST_SYSCALL_RELEASE cfg, s, p')] st
         = Some ([0, 0], st\<lparr>sys_call_table := (sys_call_table st)(s := f (table st s))\<rparr>)"
proof -
  have "(table st s)\<lparr>intercepted := 0\<rparr> = table st s"
    using assms(5) by (cases "table st s") simp
  then have "(table st)(s := (table st s)\<lparr>intercepted := 0\<rparr>) = table st"
    by simp
  then show ?thesis
    using assms
    by (simp add: my_syscall_def request_syscall_intercept_def request_syscall_release_def
          set_entry_def Let_def)
qed

text \<open>
  Claim C5. For the largest valid identifier the round trip does not restore the
  handler. With \<^verbatim>\<open>NR_syscalls = 4\<close>, after loading the module over a kernel table
  with \<open>kernel_fn 4\<close> in slot 4, root's intercept and release of system call 4 both
  return 0, and slot 4 holds the null pointer: \<^verbatim>\<open>init_function\<close> captured no handler
  for entry 4.
\<close>

theorem release_last_entry_stores_null:
  "NR_syscalls example_config = 4
   \<and> sys_call_table (loaded example_config kernel_fn) 4 = kernel_fn 4
   \<and> run_commands example_config
        [(example_root, REQUEST_SYSCALL_INTERCEPT example_config, 4, 0),
         (example_root, REQUEST_SYSCALL_RELEASE example_config, 4, 0)]
        (loaded example_config kernel_fn)
      = Some ([0, 0],
          (loaded example_config kernel_fn)
            \<lparr>sys_call_table := (sys_call_table (loaded example_config kernel_fn))(4 := NULL_fn)\<rparr>)"
  by (simp add: example_config_def example_root_def my_syscall_def
        request_syscall_intercept_def request_syscall_release_def
        table_loaded sys_call_table_loaded set_entry_def fun_eq_iff)

section \<open>The monitoring commands\<close>

lemma not_permitted_False:
  "not_permitted k pid = Some False \<longleftrightarrow>
     current_uid k = 0
     \<or> (pid \<noteq> 0 \<and> (\<exists>u. pid_task k pid = Some u \<and> pid_task k (current_pid k) = Some u))"
  by (auto simp: not_permitted_def check_pid_from_list_def EPERM_def split: option.splits)

text \<open>
  Claim C9. When the caller is not root and either pid is 0 or the pid's task has
  another owner than the caller's, \<^verbatim>\<open>request_start_monitoring\<close> and
  \<^verbatim>\<open>request_stop_monitoring\<close> return \<^verbatim>\<open>-EPERM\<close> and leave the state as it was. And
  when either of them returns anything else than \<^verbatim>\<open>-EPERM\<close>, the caller is root, or
  pid is not 0 and its task has the caller's owner.
\<close>

theorem monitoring_permission:
  "(current_uid k \<noteq> 0
      \<and> (pid = 0 \<or> (\<exists>u c. pid_task k pid = Some u \<and> pid_task k (current_pid k) = Some c \<and> u \<noteq> c))
    \<longrightarrow> request_start_monitoring k s pid st = Some (- EPERM, st)
        \<and> request_stop_monitoring k s pid st = Some (- EPERM, st))
   \<and> ((\<exists>r st'. r \<noteq> - EPERM
          \<and> (request_start_monitoring k s pid st = Some (r, st')
              \<or> request_stop_monitoring k s pid st = Some (r, st')))
    \<longrightarrow> current_uid k = 0
        \<or> (pid \<noteq> 0 \<and> (\<exists>u. pid_task k pid = Some u \<and> pid_task k (current_pid k) = Some u)))"
proof (intro conjI impI)
  assume h: "current_uid k \<noteq> 0
      \<and> (pid = 0 \<or> (\<exists>u c. pid_task k pid = Some u \<and> pid_task k (current_pid k) = Some c \<and> u \<noteq> c))"
  then have "not_permitted k pid = Some True"
    by (auto simp: not_permitted_def check_pid_from_list_def EPERM_def)
  then show "request_start_monitoring k s pid st = Some (- EPERM, st)"
    and "request_stop_monitoring k s pid st = Some (- EPERM, st)"
    by (simp_all add: request_start_monitoring_def request_stop_monitoring_def)
next
  assume "\<exists>r st'. r \<noteq> - EPERM
          \<and> (request_start_monitoring k s pid st = Some (r, st')
              \<or> request_stop_monitoring k s pid st = Some (r, st'))"
  then have "not_permitted k pid = Some False"
    by (auto simp: request_start_monitoring_def request_stop_monitoring_def
             split: option.splits bool.splits)
  then show "current_uid k = 0
        \<or> (pid \<noteq> 0 \<and> (\<exists>u. pid_task k pid = Some u \<and> pid_task k (current_pid k) = Some u))"
    by (simp add: not_permitted_False)
qed

theorem monitoring_permission_witness:
  "current_uid (example_user 7) \<noteq> 0
   \<and> pid_task (example_user 7) 8 = Some 2000
   \<and> pid_task (example_user 7) (current_pid (example_user 7)) = Some 1000
   \<and> request_start_monitoring (example_user 7) 2 8 (example_state 1 0 []) = Some (- EPERM, example_state 1 0 [])
   \<and> request_stop_monitoring (example_user 7) 2 8 (example_state 1 0 []) = Some (- EPERM, example_state 1 0 [])
   \<and> request_start_monitoring (example_user 7) 2 0 (example_state 1 0 []) = Some (- EPERM, example_state 1 0 [])
   \<and> request_start_monitoring (example_user 7) 2 42 (example_state 1 0 []) = Some (0, example_state 1 1 [42])
   \<and> (0::int) \<noteq> - EPERM
   \<and> (\<exists>u. pid_task (example_user 7) 42 = Some u
           \<and> pid_task (example_user 7) (current_pid (example_user 7)) = Some u)"
proof -
  have a: "current_uid (example_user 7) \<noteq> 0"
    by (simp add: example_user_def)
  have b: "pid_task (example_user 7) 8 = Some 2000"
    "pid_task (example_user 7) (current_pid (example_user 7)) = Some 1000"
    by (simp_all add: example_user_def example_tasks_def)
  have c: "request_start_monitoring (example_user 7) 2 42 (example_state 1 0 []) = Some (0, example_state 1 1 [42])"
    by (simp add: request_start_monitoring_def not_permitted_def check_pid_from_list_def
          add_and_mark_def check_pid_monitored_def add_pid_sysc_def example_user_def
          example_tasks_def example_state_def set_entry_def)
  have d: "(0::int) \<noteq> - EPERM"
    by (simp add: EPERM_def)
  have p: "\<exists>r st'. r \<noteq> - EPERM
          \<and> (request_start_monitoring (example_user 7) 2 42 (example_state 1 0 []) = Some (r, st')
              \<or> request_stop_monitoring (example_user 7) 2 42 (example_state 1 0 []) = Some (r, st'))"
    using c d by blast
  have own: "\<exists>u. pid_task (example_user 7) 42 = Some u
           \<and> pid_task (example_user 7) (current_pid (example_user 7)) = Some u"
    using monitoring_permission [of "example_user 7" 42 2 "example_state 1 0 []"] p a
    by blast
  have other: "request_start_monitoring (example_user 7) 2 8 (example_state 1 0 []) = Some (- EPERM, example_state 1 0 [])
     \<and> request_stop_monitoring (example_user 7) 2 8 (example_state 1 0 []) = Some (- EPERM, example_state 1 0 [])"
    using monitoring_permission [of "example_user 7" 8 2 "example_state 1 0 []"] a b
    by simp
  have everyone: "request_start_monitoring (example_user 7) 2 0 (example_state 1 0 []) = Some (- EPERM, example_state 1 0 [])"
    using monitoring_permission [of "example_user 7" 0 2 "example_state 1 0 []"] a
    by simp
  show ?thesis
    using a b c d own other everyone by simp
qed

text \<open>The same refusal seen from \<^verbatim>\<open>my_syscall\<close>, for a system call in range.\<close>

lemma my_syscall_monitoring_denied:
  assumes "0 < syscall" and "syscall \<le> NR_syscalls cfg"
    and "cmd = REQUEST_START_MONITORING cfg \<or> cmd = REQUEST_STOP_MONITORING cfg"
    and "cmd \<noteq> REQUEST_SYSCALL_INTERCEPT cfg" and "cmd \<noteq> REQUEST_SYSCALL_RELEASE cfg"
    and "current_uid k \<noteq> 0"
    and "pid = 0 \<or> (\<exists>u c. pid_task k pid = Some u \<and> pid_task k (current_pid k) = Some c \<and> u \<noteq> c)"
  shows "my_syscall cfg k cmd syscall pid st = Some (- EPERM, st)"
proof -
  have "not_permitted k pid = Some True"
    using assms(6,7) by (auto simp: not_permitted_def check_pid_from_list_def EPERM_def)
  then have "request_start_monitoring k syscall pid st = Some (- EPERM, st)"
    and "request_stop_monitoring k syscall pid st = Some (- EPERM, st)"
    by (simp_all add: request_start_monitoring_def request_stop_monitoring_def)
  moreover have "\<not> (pid \<noteq> 0 \<and> pid_task k pid = None)"
    using assms(7) by auto
  ultimately show ?thesis
    using assms(1-5) by (auto simp: my_syscall_def)
qed

text \<open>
  Claim C1. \<^verbatim>\<open>REQUEST_STOP_MONITORING\<close> for a pid in mode 2 (all) does not keep mode 2.
  After root intercepts system call 2 and starts monitoring it for all pids, stopping
  for pid 42 returns 0 and puts 42 on the list, but sets \<^verbatim>\<open>monitored\<close> to 1: a call by
  42 is logged, a call by 7 is not, and the same stop command again returns 0 (not
  \<^verbatim>\<open>-EBUSY\<close>), taking 42 off the list and resetting the mode to 0.
\<close>

theorem stop_monitoring_all_mode_scenario:
  "run_commands example_config
      [(example_root, REQUEST_SYSCALL_INTERCEPT example_config, 2, 0),
       (example_root, REQUEST_START_MONITORING example_config, 2, 0)]
      (loaded example_config kernel_fn)
     = Some ([0, 0], example_state 1 2 [])
   \<and> run_commands example_config
      [(example_root, REQUEST_STOP_MONITORING example_config, 2, 42)] (example_state 1 2 [])
     = Some ([0], example_state 1 1 [42])
   \<and> monitored (table (example_state 1 1 [42]) 2) = 1
   \<and> interceptor (example_user 42) example_call (example_regs 2) (example_state 1 1 [42])
     = Some ([log_message 42 2 10 20 30 40 50 60], 210)
   \<and> interceptor (example_user 7) example_call (example_regs 2) (example_state 1 1 [42])
     = Some ([], 210)
   \<and> run_commands example_config
      [(example_root, REQUEST_STOP_MONITORING example_config, 2, 42)] (example_state 1 1 [42])
     = Some ([0], example_state 1 0 [])
   \<and> (0::int) \<noteq> - EBUSY"
  by (simp add: example_config_def example_root_def example_user_def example_tasks_def
        example_regs_def example_call_def example_state_def my_syscall_def
        request_syscall_intercept_def request_start_monitoring_def request_stop_monitoring_def
        not_permitted_def destroy_list_def add_and_mark_def check_pid_monitored_def
        add_pid_sysc_def del_pid_sysc_def count_down_def interceptor_def
        table_loaded sys_call_table_loaded set_entry_def EBUSY_def Let_def)

section \<open>Properties of the custom system call\<close>

text \<open>
  Claim C10. For a \<^verbatim>\<open>cmd\<close> that is none of the four commands, \<^verbatim>\<open>my_syscall\<close> returns
  \<^verbatim>\<open>-EINVAL\<close> and leaves the state as it was, for every \<^verbatim>\<open>syscall\<close> and every \<^verbatim>\<open>pid\<close>.
\<close>

theorem my_syscall_unknown_command:
  "cmd \<noteq> REQUEST_SYSCALL_INTERCEPT cfg \<Longrightarrow> cmd \<noteq> REQUEST_SYSCALL_RELEASE cfg \<Longrightarrow>
   cmd \<noteq> REQUEST_START_MONITORING cfg \<Longrightarrow> cmd \<noteq> REQUEST_STOP_MONITORING cfg \<Longrightarrow>
   my_syscall cfg k cmd syscall pid st = Some (- EINVAL, st)"
  by (simp add: my_syscall_def)

theorem my_syscall_unknown_command_witness:
  "(9::int) \<noteq> REQUEST_SYSCALL_INTERCEPT example_config
   \<and> 9 \<noteq> REQUEST_SYSCALL_RELEASE example_config
   \<and> 9 \<noteq> REQUEST_START_MONITORING example_config
   \<and> 9 \<noteq> REQUEST_STOP_MONITORING example_config
   \<and> my_syscall example_config example_root 9 2 42 (example_state 1 2 [])
       = Some (- EINVAL, example_state 1 2 [])"
  using my_syscall_unknown_command [of 9 example_config example_root 2 42 "example_state 1 2 []"]
  by (simp add: example_config_def)

text \<open>
  The test that opens \<^verbatim>\<open>my_syscall\<close>: for every \<^verbatim>\<open>cmd\<close>, a \<^verbatim>\<open>syscall\<close> that is not in
  \<open>1..NR_syscalls\<close> is refused with \<^verbatim>\<open>-EINVAL\<close> and the state is left as it was.
\<close>

lemma my_syscall_out_of_range:
  "syscall \<le> 0 \<or> NR_syscalls cfg < syscall \<Longrightarrow>
   my_syscall cfg k cmd syscall pid st = Some (- EINVAL, st)"
  by (auto simp: my_syscall_def)

text \<open>
  Claim C2. \<^verbatim>\<open>my_syscall\<close> refuses \<^verbatim>\<open>MY_CUSTOM_SYSCALL\<close> through that same test, with its
  bound \<^verbatim>\<open>syscall <= 0\<close>; the identifier is a constant of \<^verbatim>\<open>interceptor.h\<close> and is taken
  outside \<open>1..NR_syscalls\<close>. Then for every \<^verbatim>\<open>cmd\<close>, the four commands among them, a
  \<^verbatim>\<open>syscall\<close> that is out of range or is \<^verbatim>\<open>MY_CUSTOM_SYSCALL\<close> gets \<^verbatim>\<open>-EINVAL\<close>, whoever
  calls and whatever the command would do, and the state is left as it was.
\<close>

theorem my_syscall_invalid_operation_id:
  assumes "MY_CUSTOM_SYSCALL cfg \<le> 0 \<or> NR_syscalls cfg < MY_CUSTOM_SYSCALL cfg"
    and "syscall \<le> 0 \<or> NR_syscalls cfg < syscall \<or> syscall = MY_CUSTOM_SYSCALL cfg"
  shows "my_syscall cfg k cmd syscall pid st = Some (- EINVAL, st)"
  using assms by (auto simp: my_syscall_def)

theorem my_syscall_invalid_operation_id_witness:
  "(MY_CUSTOM_SYSCALL example_config \<le> 0
      \<or> NR_syscalls example_config < MY_CUSTOM_SYSCALL example_config)
   \<and> MY_CUSTOM_SYSCALL example_config = 0
   \<and> my_syscall example_config example_root (REQUEST_SYSCALL_INTERCEPT example_config)
        (MY_CUSTOM_SYSCALL example_config) 0 (example_state 0 0 [])
      = Some (- EINVAL, example_state 0 0 [])
   \<and> NR_syscalls example_config < 5
   \<and> my_syscall example_config example_root (REQUEST_START_MONITORING example_config)
        5 42 (example_state 0 0 [])
      = Some (- EINVAL, example_state 0 0 [])"
proof -
  have c: "MY_CUSTOM_SYSCALL example_config \<le> 0
      \<or> NR_syscalls example_config < MY_CUSTOM_SYSCALL example_config"
    by (simp add: example_config_def)
  have z: "MY_CUSTOM_SYSCALL example_config = 0" and n: "NR_syscalls example_config < 5"
    by (simp_all add: example_config_def)
  show ?thesis
    using c z n
      my_syscall_invalid_operation_id [OF c, of "MY_CUSTOM_SYSCALL example_config" example_root
        "REQUEST_SYSCALL_INTERCEPT example_config" 0 "example_state 0 0 []"]
      my_syscall_invalid_operation_id [OF c, of 5 example_root
        "REQUEST_START_MONITORING example_config" 42 "example_state 0 0 []"]
    by simp
qed

end
